theory Spec2Isabelle
  imports Complex_Main
begin

section \<open>Values and errors\<close>

text \<open>
  The two scripts \<^verbatim>\<open>extract-images-openai.py\<close> and \<^verbatim>\<open>find-image.py\<close> are embedded as
  pure functions. Python's unbounded integers are \<open>int\<close>. A value decoded by
  \<^verbatim>\<open>json.loads\<close> is a \<open>json\<close>; a JSON number is kept as the rational it denotes, so the
  arithmetic below is exact where Python computes in binary64. For integer percentages and
  image sides below \<open>2^53\<close> the quotient by \<open>100\<close> is correctly rounded and its truncation
  is the truncation of the exact quotient. An object is its list of items, looked up
  with \<open>map_of\<close>.
\<close>

datatype json =
    JNull
  | JBool bool
  | JNum rat
  | JStr string
  | JArr "json list"
  | JObj "(string \<times> json) list"

text \<open>The exceptions that the scripts raise themselves or that their operations raise.\<close>

datatype error =
    ValueError string
  | ApiError string
  | AttributeError
  | TypeError
  | ZeroDivisionError
  | ImportError string
  | OtherError string

text \<open>\<^verbatim>\<open>d.get(key, default)\<close>: only a dict has the method.\<close>

definition dict_get :: "json \<Rightarrow> string \<Rightarrow> json \<Rightarrow> error + json" where
  "dict_get d k dflt =
     (case d of
        JObj kvs \<Rightarrow> (case map_of kvs k of None \<Rightarrow> Inr dflt | Some v \<Rightarrow> Inr v)
      | _ \<Rightarrow> Inl AttributeError)"

text \<open>
  The operand of \<^verbatim>\<open>v * img_width / 100\<close>: a number, or a bool (Python's \<^verbatim>\<open>True\<close> is 1);
  every other JSON value raises TypeError, at the product or at the division.
\<close>

definition py_num :: "json \<Rightarrow> error + rat" where
  "py_num v =
     (case v of
        JNum q \<Rightarrow> Inr q
      | JBool b \<Rightarrow> Inr (if b then 1 else 0)
      | _ \<Rightarrow> Inl TypeError)"

text \<open>\<^verbatim>\<open>int(q)\<close> on a float: truncation toward zero.\<close>

definition py_int :: "rat \<Rightarrow> int" where
  "py_int q = (if 0 \<le> q then \<lfloor>q\<rfloor> else \<lceil>q\<rceil>)"

text \<open>Python's truth value of a decoded JSON value, as \<^verbatim>\<open>if not figures\<close> tests it.\<close>

definition truthy :: "json \<Rightarrow> bool" where
  "truthy v =
     (case v of
        JNull \<Rightarrow> False
      | JBool b \<Rightarrow> b
      | JNum q \<Rightarrow> q \<noteq> 0
      | JStr s \<Rightarrow> s \<noteq> []
      | JArr xs \<Rightarrow> xs \<noteq> []
      | JObj kvs \<Rightarrow> kvs \<noteq> [])"

section \<open>The region normalizer of the remote pipeline\<close>

record region =
  rx :: int
  ry :: int
  rw :: int
  rh :: int

text \<open>\<^verbatim>\<open>int(v * side / 100)\<close>, lines 136 to 139 of \<^verbatim>\<open>extract-images-openai.py\<close>.\<close>

definition pct_to_px :: "rat \<Rightarrow> int \<Rightarrow> int" where
  "pct_to_px p side = py_int (p * of_int side / 100)"

definition to_pixels :: "rat \<Rightarrow> rat \<Rightarrow> rat \<Rightarrow> rat \<Rightarrow> int \<Rightarrow> int \<Rightarrow> region" where
  "to_pixels px py pw ph img_width img_height =
     \<lparr> rx = pct_to_px px img_width,
       ry = pct_to_px py img_height,
       rw = pct_to_px pw img_width,
       rh = pct_to_px ph img_height \<rparr>"

text \<open>Lines 142 and 143: \<^verbatim>\<open>int(w * padding_percent / 100)\<close>.\<close>

definition padding_of :: "int \<Rightarrow> int \<Rightarrow> int" where
  "padding_of side padding_percent = py_int (of_int (side * padding_percent) / 100)"

text \<open>Lines 146 to 149.\<close>

definition apply_padding :: "region \<Rightarrow> int \<Rightarrow> region" where
  "apply_padding r padding_percent =
     (let padding_x = padding_of (rw r) padding_percent;
          padding_y = padding_of (rh r) padding_percent
      in \<lparr> rx = rx r - padding_x,
           ry = ry r - padding_y,
           rw = rw r + padding_x * 2,
           rh = rh r + padding_y * 2 \<rparr>)"

text \<open>Lines 152 to 155: the width and height are cut against the clamped origin.\<close>

definition clamp_region :: "region \<Rightarrow> int \<Rightarrow> int \<Rightarrow> region" where
  "clamp_region r img_width img_height =
     (let x = max 0 (rx r);
          y = max 0 (ry r);
          w = min (rw r) (img_width - x);
          h = min (rh r) (img_height - y)
      in \<lparr> rx = x, ry = y, rw = w, rh = h \<rparr>)"

definition pad_and_clamp :: "region \<Rightarrow> int \<Rightarrow> int \<Rightarrow> int \<Rightarrow> region" where
  "pad_and_clamp r padding_percent img_width img_height =
     clamp_region (apply_padding r padding_percent) img_width img_height"

text \<open>The test of line 158.\<close>

definition survives :: "region \<Rightarrow> bool" where
  "survives r \<longleftrightarrow> rw r > 0 \<and> rh r > 0"

text \<open>
  Lines 133 to 155 for one figure: the bbox with its defaults, the four conversions in
  source order, padding and clamping. Each \<^verbatim>\<open>get\<close> and each product may raise.
\<close>

definition bbox_field :: "json \<Rightarrow> string \<Rightarrow> rat \<Rightarrow> error + rat" where
  "bbox_field bbox k dflt =
     (case dict_get bbox k (JNum dflt) of
        Inl e \<Rightarrow> Inl e
      | Inr v \<Rightarrow> py_num v)"

definition normalize_figure :: "json \<Rightarrow> int \<Rightarrow> int \<Rightarrow> int \<Rightarrow> error + region" where
  "normalize_figure figure padding_percent img_width img_height =
     (case dict_get figure ''bbox'' (JObj []) of
        Inl e \<Rightarrow> Inl e
      | Inr bbox \<Rightarrow>
     (case bbox_field bbox ''x'' 0 of Inl e \<Rightarrow> Inl e | Inr px \<Rightarrow>
     (case bbox_field bbox ''y'' 0 of Inl e \<Rightarrow> Inl e | Inr py \<Rightarrow>
     (case bbox_field bbox ''width'' 100 of Inl e \<Rightarrow> Inl e | Inr pw \<Rightarrow>
     (case bbox_field bbox ''height'' 100 of Inl e \<Rightarrow> Inl e | Inr ph \<Rightarrow>
        Inr (pad_and_clamp (to_pixels px py pw ph img_width img_height)
               padding_percent img_width img_height))))))"

section \<open>Paths, file names and file-system effects\<close>

text \<open>\<^verbatim>\<open>str(i)\<close> inside the f-string: the decimal numeral of a count.\<close>

definition digit_char :: "nat \<Rightarrow> char" where
  "digit_char d = char_of (48 + d)"

fun str_nat :: "nat \<Rightarrow> string" where
  "str_nat n = (if n < 10 then [digit_char n] else str_nat (n div 10) @ [digit_char (n mod 10)])"

text \<open>\<^verbatim>\<open>os.path.basename\<close>, \<^verbatim>\<open>os.path.splitext(...)[0]\<close> and \<^verbatim>\<open>os.path.join\<close> on POSIX paths.\<close>

definition basename :: "string \<Rightarrow> string" where
  "basename p = rev (takeWhile (\<lambda>c. c \<noteq> CHR ''/'') (rev p))"

definition splitext_root :: "string \<Rightarrow> string" where
  "splitext_root p =
     (let name = basename p;
          dir = take (length p - length name) p
      in if CHR ''.'' \<in> set name then
           (let ext = rev (takeWhile (\<lambda>c. c \<noteq> CHR ''.'') (rev name));
                stem = take (length name - length ext - 1) name
            in if list_ex (\<lambda>c. c \<noteq> CHR ''.'') stem then dir @ stem else p)
         else p)"

definition path_join :: "string \<Rightarrow> string \<Rightarrow> string" where
  "path_join a b =
     (if b \<noteq> [] \<and> hd b = CHR ''/'' then b
      else if a = [] \<or> last a = CHR ''/'' then a @ b
      else a @ ''/'' @ b)"

definition base_filename_of :: "string \<Rightarrow> string" where
  "base_filename_of image_path = splitext_root (basename image_path)"

text \<open>\<^verbatim>\<open>os.path.join(output_folder, f'{base_filename}_figure_{i}.jpg')\<close>\<close>

definition figure_path :: "string \<Rightarrow> string \<Rightarrow> nat \<Rightarrow> string" where
  "figure_path output_folder base_filename i =
     path_join output_folder (base_filename @ ''_figure_'' @ str_nat i @ ''.jpg'')"

text \<open>
  What the scripts do to the disk, in order: \<^verbatim>\<open>os.makedirs\<close> and \<^verbatim>\<open>cv2.imwrite\<close>. A written
  file holds a crop of the image or the whole image.
\<close>

datatype content = Crop region | WholeImage

datatype fs_op = MkDirs string | WriteFile string content

fun written_files :: "fs_op list \<Rightarrow> string list" where
  "written_files [] = []"
| "written_files (MkDirs d # ops) = written_files ops"
| "written_files (WriteFile p c # ops) = p # written_files ops"

fun written_crops :: "fs_op list \<Rightarrow> region list" where
  "written_crops [] = []"
| "written_crops (WriteFile p (Crop r) # ops) = r # written_crops ops"
| "written_crops (opn # ops) = written_crops ops"

section \<open>The remote pipeline: \<^verbatim>\<open>extract-images-openai.py\<close>\<close>

subsection \<open>Cleaning and parsing the response\<close>

text \<open>\<^verbatim>\<open>str.replace(old, new)\<close>: every non-overlapping occurrence, leftmost first.\<close>

fun py_replace :: "string \<Rightarrow> string \<Rightarrow> string \<Rightarrow> string" where
  "py_replace old new [] = (if old = [] then new else [])"
| "py_replace old new (c # cs) =
     (if old = [] then new @ c # py_replace old new cs
      else if take (length old) (c # cs) = old
        then new @ py_replace old new (drop (length old - 1) cs)
      else c # py_replace old new cs)"

text \<open>\<^verbatim>\<open>str.strip()\<close>: the ASCII characters for which \<^verbatim>\<open>str.isspace\<close> holds.\<close>

definition is_space :: "char \<Rightarrow> bool" where
  "is_space c \<longleftrightarrow> (let n = (of_char c :: nat) in (9 \<le> n \<and> n \<le> 13) \<or> (28 \<le> n \<and> n \<le> 32))"

definition py_strip :: "string \<Rightarrow> string" where
  "py_strip s = rev (dropWhile is_space (rev (dropWhile is_space s)))"

text \<open>The two markers of line 99: three backquotes (character \<open>0x60\<close>), alone and before \<^verbatim>\<open>json\<close>.\<close>

definition fence :: string where
  "fence = [CHR 0x60, CHR 0x60, CHR 0x60]"

definition fence_json :: string where
  "fence_json = fence @ ''json''"

text \<open>Line 99.\<close>

definition clean_content :: "string \<Rightarrow> string" where
  "clean_content content = py_strip (py_replace fence [] (py_replace fence_json [] content))"

text \<open>Lines 99 to 101; \<^verbatim>\<open>json.loads\<close> is the library's decoder, a parameter here.\<close>

definition parse_content :: "(string \<Rightarrow> error + json) \<Rightarrow> string \<Rightarrow> error + json" where
  "parse_content loads content = loads (clean_content content)"

text \<open>
  The reply of the HTTP request: its status, its raw text, and the outcome of
  \<^verbatim>\<open>response.json()['choices'][0]['message']['content']\<close>.
\<close>

record http_response =
  status_code :: nat
  text_of :: string
  message_content :: "error + string"

text \<open>
  \<^verbatim>\<open>detect_figure_regions_with_openai\<close>. The environment variable, the reading of the image
  file and the request are the outside world: \<open>api_key\<close> is what \<^verbatim>\<open>os.getenv\<close> returns,
  \<open>file_read\<close> the outcome of opening and encoding the file, \<open>post\<close> the outcome of
  \<^verbatim>\<open>requests.post\<close>.
\<close>

definition detect_figure_regions_with_openai ::
  "(string \<Rightarrow> error + json) \<Rightarrow> string option \<Rightarrow> error option \<Rightarrow> error + http_response
     \<Rightarrow> error + json" where
  "detect_figure_regions_with_openai loads api_key file_read post =
     (if api_key = None \<or> api_key = Some [] then
        Inl (ValueError ''OPENAI_API_KEY not found in environment'')
      else (case file_read of
              Some e \<Rightarrow> Inl e
            | None \<Rightarrow>
                (case post of
                   Inl e \<Rightarrow> Inl e
                 | Inr response \<Rightarrow>
                     if status_code response \<noteq> 200 then
                       Inl (ApiError (''OpenAI API error: '' @ text_of response))
                     else (case message_content response of
                             Inl e \<Rightarrow> Inl e
                           | Inr content \<Rightarrow> parse_content loads content))))"

subsection \<open>Cropping and writing\<close>

text \<open>
  What \<^verbatim>\<open>enumerate(figures)\<close> iterates over: the items of a list, the characters of a
  string, the keys of a dict; a number or a bool is not iterable.
\<close>

definition py_iter :: "json \<Rightarrow> error + json list" where
  "py_iter v =
     (case v of
        JArr xs \<Rightarrow> Inr xs
      | JStr s \<Rightarrow> Inr (map (\<lambda>c. JStr [c]) s)
      | JObj kvs \<Rightarrow> Inr (map JStr (remdups (map fst kvs)))
      | _ \<Rightarrow> Inl TypeError)"

text \<open>
  The loop of lines 132 to 163. The state is the log of disk operations and the list
  \<^verbatim>\<open>extracted_paths\<close>; an exception leaves the loop with what has been written so far.
\<close>

fun figures_loop ::
  "string \<Rightarrow> string \<Rightarrow> int \<Rightarrow> int \<Rightarrow> int \<Rightarrow> nat \<Rightarrow> json list
     \<Rightarrow> fs_op list \<Rightarrow> string list \<Rightarrow> fs_op list \<times> (error + string list)" where
  "figures_loop output_folder base_filename padding_percent img_width img_height i [] ops paths =
     (ops, Inr paths)"
| "figures_loop output_folder base_filename padding_percent img_width img_height i (figure # rest)
     ops paths =
     (case normalize_figure figure padding_percent img_width img_height of
        Inl e \<Rightarrow> (ops, Inl e)
      | Inr r \<Rightarrow>
          if survives r then
            (let output_path = figure_path output_folder base_filename i
             in figures_loop output_folder base_filename padding_percent img_width img_height
                  (Suc i) rest (ops @ [WriteFile output_path (Crop r)]) (paths @ [output_path]))
          else
            figures_loop output_folder base_filename padding_percent img_width img_height
              (Suc i) rest ops paths)"

text \<open>
  \<^verbatim>\<open>extract_figures_from_image\<close>. \<open>detected\<close> is the outcome of the call of line 116 and
  \<open>img\<close> what \<^verbatim>\<open>cv2.imread\<close> gives: the width and height of the decoded image, or
  \<open>None\<close>. The result is the log of disk operations with the returned paths or the
  exception.
\<close>

definition extract_figures_from_image ::
  "string \<Rightarrow> string \<Rightarrow> int \<Rightarrow> error + json \<Rightarrow> (int \<times> int) option
     \<Rightarrow> fs_op list \<times> (error + string list)" where
  "extract_figures_from_image image_path output_folder padding_percent detected img =
     (let ops = [MkDirs output_folder] in
      case detected of
        Inl e \<Rightarrow> (ops, Inl e)
      | Inr result \<Rightarrow>
          (case dict_get result ''figures'' (JArr []) of
             Inl e \<Rightarrow> (ops, Inl e)
           | Inr figures \<Rightarrow>
               if \<not> truthy figures then (ops, Inr [])
               else (case img of
                       None \<Rightarrow> (ops, Inl (ValueError (''Could not read image from '' @ image_path)))
                     | Some (img_width, img_height) \<Rightarrow>
                         (case py_iter figures of
                            Inl e \<Rightarrow> (ops, Inl e)
                          | Inr items \<Rightarrow>
                              figures_loop output_folder (base_filename_of image_path)
                                padding_percent img_width img_height 0 items ops []))))"

text \<open>
  The figures that the provider emitted, as the loop of line 132 receives them: the
  items of \<^verbatim>\<open>result.get('figures', [])\<close>, and none when the detection or the iteration
  raises.
\<close>

definition emitted_figures :: "error + json \<Rightarrow> json list" where
  "emitted_figures detected =
     (case detected of
        Inl e \<Rightarrow> []
      | Inr result \<Rightarrow>
          (case dict_get result ''figures'' (JArr []) of
             Inl e \<Rightarrow> []
           | Inr figures \<Rightarrow> (case py_iter figures of Inl e \<Rightarrow> [] | Inr items \<Rightarrow> items)))"

subsection \<open>The result reporter\<close>

text \<open>
  The JSON object printed by the main block and the exit status: the success shape with
  count and paths, or the failure shape with the exception (printed as \<^verbatim>\<open>str(e)\<close>).
\<close>

datatype report = Success nat "string list" | Failure error

definition report_of :: "error + string list \<Rightarrow> report" where
  "report_of outcome =
     (case outcome of
        Inr extracted \<Rightarrow> Success (length extracted) extracted
      | Inl e \<Rightarrow> Failure e)"

definition exit_status :: "report \<Rightarrow> nat" where
  "exit_status r = (case r of Success n ps \<Rightarrow> 0 | Failure e \<Rightarrow> 1)"

text \<open>Lines 181 to 195 of the remote script, from the parsed arguments on.\<close>

definition remote_main ::
  "string \<Rightarrow> string \<Rightarrow> int \<Rightarrow> error + json \<Rightarrow> (int \<times> int) option \<Rightarrow> fs_op list \<times> report" where
  "remote_main input_path output_folder padding_percent detected img =
     (case extract_figures_from_image input_path output_folder padding_percent detected img of
        (ops, outcome) \<Rightarrow> (ops, report_of outcome))"

section \<open>The local pipeline: \<^verbatim>\<open>find-image.py\<close>\<close>

subsection \<open>The contour heuristic\<close>

text \<open>
  Lines 104, 105 and 114 to 120 for one bounding rectangle. The literals \<^verbatim>\<open>0.02\<close>,
  \<^verbatim>\<open>0.8\<close>, \<^verbatim>\<open>0.3\<close> and \<^verbatim>\<open>3.0\<close> are the rationals they denote. The quotient \<^verbatim>\<open>w / h\<close> is
  computed only inside the area test and raises on a zero height.
\<close>

definition min_area :: "int \<Rightarrow> int \<Rightarrow> rat" where
  "min_area img_width img_height = of_int (img_width * img_height) * (2 / 100)"

definition max_area :: "int \<Rightarrow> int \<Rightarrow> rat" where
  "max_area img_width img_height = of_int (img_width * img_height) * (8 / 10)"

definition contour_accepted :: "int \<Rightarrow> int \<Rightarrow> region \<Rightarrow> error + bool" where
  "contour_accepted img_width img_height r =
     (let area = rw r * rh r in
      if min_area img_width img_height < of_int area \<and> of_int area < max_area img_width img_height
      then
        (if rh r = 0 then Inl ZeroDivisionError
         else (let aspect_ratio = (of_int (rw r) / of_int (rh r) :: rat)
               in Inr (3 / 10 < aspect_ratio \<and> aspect_ratio < 3)))
      else Inr False)"

text \<open>The loop of lines 111 to 126 over the bounding rectangles of the contours.\<close>

fun contours_loop ::
  "string \<Rightarrow> string \<Rightarrow> int \<Rightarrow> int \<Rightarrow> nat \<Rightarrow> region list
     \<Rightarrow> fs_op list \<Rightarrow> string list \<Rightarrow> fs_op list \<times> (error + string list)" where
  "contours_loop output_folder base_filename img_width img_height figure_count [] ops paths =
     (ops, Inr paths)"
| "contours_loop output_folder base_filename img_width img_height figure_count (r # rest)
     ops paths =
     (case contour_accepted img_width img_height r of
        Inl e \<Rightarrow> (ops, Inl e)
      | Inr accepted \<Rightarrow>
          if accepted then
            (let output_path = figure_path output_folder base_filename figure_count
             in contours_loop output_folder base_filename img_width img_height
                  (Suc figure_count) rest
                  (ops @ [WriteFile output_path (Crop r)]) (paths @ [output_path]))
          else
            contours_loop output_folder base_filename img_width img_height
              figure_count rest ops paths)"

text \<open>
  \<^verbatim>\<open>extract_images_opencv_fallback\<close>. \<open>img\<close> is what \<^verbatim>\<open>cv2.imread\<close> gives and \<open>rects\<close> the
  bounding rectangles of the contours that OpenCV finds in it, in its order.
\<close>

definition extract_images_opencv_fallback ::
  "string \<Rightarrow> string \<Rightarrow> (int \<times> int) option \<Rightarrow> region list
     \<Rightarrow> fs_op list \<times> (error + string list)" where
  "extract_images_opencv_fallback input_image_path output_folder img rects =
     (let ops = [MkDirs output_folder] in
      case img of
        None \<Rightarrow> (ops, Inl (ValueError (''Could not read image from '' @ input_image_path)))
      | Some (img_width, img_height) \<Rightarrow>
          contours_loop output_folder (base_filename_of input_image_path)
            img_width img_height 0 rects ops [])"

subsection \<open>The layout model, with the fallback\<close>

record block =
  block_type :: string
  block_region :: region

text \<open>The loop of lines 61 to 65 over the blocks of type Figure.\<close>

fun blocks_loop ::
  "string \<Rightarrow> string \<Rightarrow> nat \<Rightarrow> block list \<Rightarrow> fs_op list \<Rightarrow> string list
     \<Rightarrow> fs_op list \<times> (error + string list)" where
  "blocks_loop output_folder base_filename i [] ops paths = (ops, Inr paths)"
| "blocks_loop output_folder base_filename i (b # rest) ops paths =
     (let output_path = figure_path output_folder base_filename i
      in blocks_loop output_folder base_filename (Suc i) rest
           (ops @ [WriteFile output_path (Crop (block_region b))]) (paths @ [output_path]))"

text \<open>\<^verbatim>\<open>except (ImportError, AttributeError)\<close>\<close>

definition falls_back :: "error \<Rightarrow> bool" where
  "falls_back e = (case e of ImportError m \<Rightarrow> True | AttributeError \<Rightarrow> True | _ \<Rightarrow> False)"

text \<open>
  \<^verbatim>\<open>extract_images_from_note\<close>. \<open>lp_model\<close> is the outcome of importing layoutparser and
  building the model (an exception, or a model given by what its \<^verbatim>\<open>detect\<close> does on the
  image: an exception or the layout).
\<close>

definition extract_images_from_note ::
  "string \<Rightarrow> string \<Rightarrow> error + (error + block list) \<Rightarrow> (int \<times> int) option \<Rightarrow> region list
     \<Rightarrow> fs_op list \<times> (error + string list)" where
  "extract_images_from_note input_image_path output_folder lp_model img rects =
     (let ops = [MkDirs output_folder];
          fallback = (\<lambda>u::unit.
            case extract_images_opencv_fallback input_image_path output_folder img rects of
              (ops', outcome) \<Rightarrow> (ops @ ops', outcome))
      in case lp_model of
           Inl e \<Rightarrow> if falls_back e then fallback () else (ops, Inl e)
         | Inr detect \<Rightarrow>
             (case img of
                None \<Rightarrow>
                  (ops, Inl (ValueError (''Could not read image from '' @ input_image_path)))
              | Some dims \<Rightarrow>
                  (case detect of
                     Inl e \<Rightarrow> if falls_back e then fallback () else (ops, Inl e)
                   | Inr layout \<Rightarrow>
                       blocks_loop output_folder (base_filename_of input_image_path) 0
                         (filter (\<lambda>b. block_type b = ''Figure'') layout) ops [])))"


text \<open>Lines 169 to 183 of the local script, from the parsed arguments on.\<close>

definition local_main ::
  "string \<Rightarrow> string \<Rightarrow> error + (error + block list) \<Rightarrow> (int \<times> int) option \<Rightarrow> region list
     \<Rightarrow> fs_op list \<times> report" where
  "local_main input_path output_folder lp_model img rects =
     (case extract_images_from_note input_path output_folder lp_model img rects of
        (ops, outcome) \<Rightarrow> (ops, report_of outcome))"

section \<open>Notions of the specification\<close>



text \<open>
  \<open>k\<close> is \<open>q\<close> cut toward zero: no farther from zero than \<open>q\<close>, less than one away from
  it, and never of the opposite sign.
\<close>

definition is_truncation :: "rat \<Rightarrow> int \<Rightarrow> bool" where
  "is_truncation q k \<longleftrightarrow> \<bar>of_int k\<bar> \<le> \<bar>q\<bar> \<and> \<bar>q\<bar> < \<bar>of_int k\<bar> + 1 \<and> 0 \<le> of_int k * q"



text \<open>
  Reading a decimal numeral back, the inverse of \<open>str_nat\<close>: it shows that different
  indices give different file names.
\<close>

definition digit_value :: "char \<Rightarrow> nat" where
  "digit_value c = of_char c - 48"

definition nat_of_str :: "string \<Rightarrow> nat" where
  "nat_of_str s = foldl (\<lambda>a c. 10 * a + digit_value c) 0 s"

text \<open>
  The figure that the request text of line 45 gives as its example, with a bounding box of
  10, 20, 30 and 40 percent.
\<close>

definition example_figure :: json where
  "example_figure =
     JObj [(''type'', JStr ''chart''), (''description'', JStr ''a chart''),
           (''bbox'', JObj [(''x'', JNum 10), (''y'', JNum 20),
                            (''width'', JNum 30), (''height'', JNum 40)])]"

text \<open>A figure whose box has no width: its region is dropped.\<close>

definition flat_figure :: json where
  "flat_figure =
     JObj [(''type'', JStr ''table''),
           (''bbox'', JObj [(''x'', JNum 10), (''y'', JNum 20),
                            (''width'', JNum 0), (''height'', JNum 40)])]"

section \<open>Properties of the normalizer\<close>

lemma py_int_of_int: "py_int (of_int k) = k"
  by (simp add: py_int_def)

lemma py_int_0: "py_int 0 = 0"
  by (simp add: py_int_def)

lemma clamp_region_bounds:
  "0 \<le> rx (clamp_region r W H) \<and> 0 \<le> ry (clamp_region r W H) \<and>
   rx (clamp_region r W H) + rw (clamp_region r W H) \<le> W \<and>
   ry (clamp_region r W H) + rh (clamp_region r W H) \<le> H"
  by (simp add: clamp_region_def Let_def min_def max_def)


lemma normalize_figure_clamped:
  "normalize_figure figure p W H = Inr r \<Longrightarrow> \<exists>r'. r = clamp_region r' W H"
  by (auto simp: normalize_figure_def pad_and_clamp_def split: sum.splits)

lemma normalize_figure_bounds:
  assumes "normalize_figure figure p W H = Inr r"
  shows "0 \<le> rx r \<and> 0 \<le> ry r \<and> rx r + rw r \<le> W \<and> ry r + rh r \<le> H"
proof -
  from assms obtain r' where "r = clamp_region r' W H"
    using normalize_figure_clamped by blast
  then show ?thesis using clamp_region_bounds by simp
qed

lemma written_crops_append: "written_crops (a @ b) = written_crops a @ written_crops b"
  by (induction a rule: written_crops.induct) simp_all

lemma written_files_append: "written_files (a @ b) = written_files a @ written_files b"
  by (induction a rule: written_files.induct) simp_all


lemma figures_loop_crops:
  assumes "\<forall>r \<in> set (written_crops ops). P r"
    and "\<forall>f \<in> set figs. \<forall>r. normalize_figure f p W H = Inr r \<and> survives r \<longrightarrow> P r"
  shows "\<forall>r \<in> set (written_crops (fst (figures_loop folder base p W H i figs ops paths))). P r"
  using assms
proof (induction figs arbitrary: i ops paths)
  case Nil
  then show ?case by simp
next
  case (Cons f figs)
  have rest: "\<forall>f \<in> set figs. \<forall>r. normalize_figure f p W H = Inr r \<and> survives r \<longrightarrow> P r"
    using Cons.prems(2) by simp
  show ?case
  proof (cases "normalize_figure f p W H")
    case (Inl e)
    then show ?thesis using Cons.prems(1) by simp
  next
    case (Inr r)
    show ?thesis
    proof (cases "survives r")
      case True
      have "P r" using Cons.prems(2) Inr True by simp
      then have "\<forall>r \<in> set (written_crops (ops @ [WriteFile (figure_path folder base i) (Crop r)])). P r"
        using Cons.prems(1) by (simp add: written_crops_append)
      from Cons.IH[OF this rest] show ?thesis using Inr True by (simp add: Let_def)
    next
      case False
      from Cons.IH[OF Cons.prems(1) rest] show ?thesis using Inr False by simp
    qed
  qed
qed


lemma extract_shape:
  "(\<exists>outcome. extract_figures_from_image path folder p detected img = ([MkDirs folder], outcome)
      \<and> (\<forall>paths. outcome = Inr paths \<longrightarrow> paths = []))
   \<or> (\<exists>W H. img = Some (W, H) \<and>
        extract_figures_from_image path folder p detected img =
          figures_loop folder (base_filename_of path) p W H 0 (emitted_figures detected)
            [MkDirs folder] [])"
proof (cases detected)
  case (Inl e)
  then show ?thesis by (simp add: extract_figures_from_image_def)
next
  case result: (Inr result)
  show ?thesis
  proof (cases "dict_get result ''figures'' (JArr [])")
    case (Inl e)
    then show ?thesis using result by (simp add: extract_figures_from_image_def)
  next
    case figures: (Inr figures)
    show ?thesis
    proof (cases "truthy figures")
      case False
      then show ?thesis using result figures by (simp add: extract_figures_from_image_def)
    next
      case True
      show ?thesis
      proof (cases img)
        case None
        then show ?thesis using result figures True by (simp add: extract_figures_from_image_def)
      next
        case (Some dims)
        obtain W H where dims: "dims = (W, H)" by (cases dims)
        show ?thesis
        proof (cases "py_iter figures")
          case (Inl e)
          then show ?thesis using result figures True Some dims
            by (simp add: extract_figures_from_image_def)
        next
          case (Inr items)
          then show ?thesis using result figures True Some dims
            by (simp add: extract_figures_from_image_def emitted_figures_def)
        qed
      qed
    qed
  qed
qed


lemma py_int_nonneg: "0 \<le> q \<Longrightarrow> 0 \<le> py_int q"
  by (simp add: py_int_def)


lemma is_truncation_unique:
  assumes "is_truncation q k"
  shows "k = py_int q"
proof (cases "0 \<le> q")
  case True
  have nn: "0 \<le> k"
  proof (rule ccontr)
    assume "\<not> 0 \<le> k"
    then have "k \<le> -1" by simp
    then have "(of_int k :: rat) \<le> -1" by (metis of_int_le_iff of_int_minus of_int_1)
    then have "\<bar>of_int k :: rat\<bar> \<ge> 1" by simp
    moreover have "of_int k * q \<le> 0" using True \<open>(of_int k :: rat) \<le> -1\<close>
      by (simp add: mult_nonpos_nonneg)
    ultimately have "\<bar>q\<bar> \<ge> 1" "of_int k * q \<le> 0" "0 \<le> of_int k * q"
      using assms unfolding is_truncation_def by linarith+
    then have "of_int k * q = 0" by linarith
    then have "q = 0" using \<open>(of_int k :: rat) \<le> -1\<close> by auto
    then show False using \<open>\<bar>q\<bar> \<ge> 1\<close> by simp
  qed
  then have "\<bar>of_int k :: rat\<bar> = of_int k" by simp
  moreover have "\<bar>q\<bar> = q" using True by simp
  ultimately have "of_int k \<le> q" "q < of_int k + 1" using assms unfolding is_truncation_def by simp_all
  then have "\<lfloor>q\<rfloor> = k" by (rule floor_unique)
  then show ?thesis using True by (simp add: py_int_def)
next
  case False
  then have neg: "q < 0" by simp
  have np: "k \<le> 0"
  proof (rule ccontr)
    assume "\<not> k \<le> 0"
    then have "0 < k" by simp
    then have "(0::rat) < of_int k" by simp
    then have "of_int k * q < 0" using neg by (simp add: mult_pos_neg)
    then show False using assms unfolding is_truncation_def by simp
  qed
  then have "(of_int k :: rat) \<le> 0" by simp
  then have "\<bar>of_int k :: rat\<bar> = - of_int k" by simp
  moreover have "\<bar>q\<bar> = - q" using neg by simp
  ultimately have "- of_int k \<le> - q" "- q < - of_int k + 1" using assms unfolding is_truncation_def by simp_all
  then have "of_int k - 1 < q" "q \<le> of_int k" by simp_all
  then have "\<lceil>q\<rceil> = k" by (rule ceiling_unique)
  then show ?thesis using False by (simp add: py_int_def)
qed

lemma example_normalized_0:
  "normalize_figure example_figure 0 1000 1000 = Inr \<lparr>rx = 100, ry = 200, rw = 300, rh = 400\<rparr>"
  by (simp add: example_figure_def normalize_figure_def dict_get_def bbox_field_def py_num_def
      to_pixels_def pct_to_px_def pad_and_clamp_def apply_padding_def padding_of_def
      clamp_region_def py_int_def)

lemma example_normalized_8:
  "normalize_figure example_figure 8 1000 1000 = Inr \<lparr>rx = 76, ry = 168, rw = 348, rh = 464\<rparr>"
  by (simp add: example_figure_def normalize_figure_def dict_get_def bbox_field_def py_num_def
      to_pixels_def pct_to_px_def pad_and_clamp_def apply_padding_def padding_of_def
      clamp_region_def py_int_def)

lemma example_extract:
  "extract_figures_from_image ''notes.jpg'' ''out'' 8
     (Inr (JObj [(''figures'', JArr [example_figure])])) (Some (1000, 1000)) =
   ([MkDirs ''out'',
     WriteFile (figure_path ''out'' (base_filename_of ''notes.jpg'') 0)
       (Crop \<lparr>rx = 76, ry = 168, rw = 348, rh = 464\<rparr>)],
    Inr [figure_path ''out'' (base_filename_of ''notes.jpg'') 0])"
  by (simp add: extract_figures_from_image_def dict_get_def truthy_def py_iter_def
      example_normalized_8 survives_def Let_def)

text \<open>
  Claim C1. Every region that the remote pipeline crops and writes lies inside the image:
  its origin is not negative, and its right and lower edges do not pass the width and the
  height. This holds for every provider response, every image size and every padding.
\<close>

theorem normalized_region_within_image:
  assumes "r \<in> set (written_crops (fst (extract_figures_from_image image_path output_folder
             padding_percent detected (Some (img_width, img_height)))))"
  shows "0 \<le> rx r \<and> 0 \<le> ry r \<and> rx r + rw r \<le> img_width \<and> ry r + rh r \<le> img_height"
proof -
  let ?P = "\<lambda>r. 0 \<le> rx r \<and> 0 \<le> ry r \<and> rx r + rw r \<le> img_width \<and> ry r + rh r \<le> img_height"
  let ?E = "extract_figures_from_image image_path output_folder padding_percent detected
              (Some (img_width, img_height))"
  from extract_shape[of image_path output_folder padding_percent detected "Some (img_width, img_height)"]
  consider (trivial) outcome where "?E = ([MkDirs output_folder], outcome)"
    | (loop) "?E = figures_loop output_folder (base_filename_of image_path) padding_percent
         img_width img_height 0 (emitted_figures detected) [MkDirs output_folder] []"
    by auto
  then show ?thesis
  proof cases
    case trivial
    then show ?thesis using assms by simp
  next
    case loop
    have a: "\<forall>r \<in> set (written_crops [MkDirs output_folder]). ?P r" by simp
    have b: "\<forall>f \<in> set (emitted_figures detected). \<forall>r.
        normalize_figure f padding_percent img_width img_height = Inr r \<and> survives r \<longrightarrow> ?P r"
      using normalize_figure_bounds by blast
    from figures_loop_crops[OF a b] show ?thesis using assms loop by simp
  qed
qed


theorem normalized_region_within_image_witness:
  "\<lparr>rx = 76, ry = 168, rw = 348, rh = 464\<rparr> \<in> set (written_crops (fst (extract_figures_from_image
       ''notes.jpg'' ''out'' 8 (Inr (JObj [(''figures'', JArr [example_figure])])) (Some (1000, 1000)))))
   \<and> (0::int) \<le> 76 \<and> (0::int) \<le> 168 \<and> (76::int) + 348 \<le> 1000 \<and> (168::int) + 464 \<le> 1000"
proof -
  have m: "\<lparr>rx = 76, ry = 168, rw = 348, rh = 464\<rparr> \<in> set (written_crops (fst (extract_figures_from_image
       ''notes.jpg'' ''out'' 8 (Inr (JObj [(''figures'', JArr [example_figure])])) (Some (1000, 1000)))))"
    by (simp add: example_extract)
  from normalized_region_within_image[OF m] m show ?thesis by simp
qed



text \<open>
  Claim C4. On a region that already lies inside the image, padding by zero percent and
  clamping changes nothing.
\<close>

theorem pad_and_clamp_idempotent:
  assumes "0 \<le> rx r" and "0 \<le> ry r" and "rx r + rw r \<le> img_width" and "ry r + rh r \<le> img_height"
  shows "pad_and_clamp r 0 img_width img_height = r"
  using assms
  by (simp add: pad_and_clamp_def apply_padding_def padding_of_def clamp_region_def py_int_0)

theorem pad_and_clamp_idempotent_witness:
  "(0::int) \<le> 100 \<and> (0::int) \<le> 200 \<and> (100::int) + 300 \<le> 1000 \<and> (200::int) + 400 \<le> 1000 \<and>
   pad_and_clamp \<lparr>rx = 100, ry = 200, rw = 300, rh = 400\<rparr> 0 1000 1000
     = \<lparr>rx = 100, ry = 200, rw = 300, rh = 400\<rparr>"
  using pad_and_clamp_idempotent[of "\<lparr>rx = 100, ry = 200, rw = 300, rh = 400\<rparr>" 1000 1000]
  by simp

text \<open>
  Claim C6. On an image of 1000 by 1000 pixels the example box of 10, 20, 30 and 40 percent
  becomes the rectangle (100, 200, 300, 400) without padding; with a padding of 8 percent
  the paddings are 24 and 32 and the rectangle is (76, 168, 348, 464).
\<close>

theorem example_region_pixels:
  "normalize_figure example_figure 0 1000 1000 = Inr \<lparr>rx = 100, ry = 200, rw = 300, rh = 400\<rparr> \<and>
   padding_of 300 8 = 24 \<and> padding_of 400 8 = 32 \<and>
   normalize_figure example_figure 8 1000 1000 = Inr \<lparr>rx = 76, ry = 168, rw = 348, rh = 464\<rparr>"
  by (simp add: example_normalized_0 example_normalized_8 padding_of_def py_int_def)

lemma bbox_field_missing:
  "map_of kvs k = None \<Longrightarrow> bbox_field (JObj kvs) k d = Inr d"
  by (simp add: bbox_field_def dict_get_def py_num_def)

lemma pct_to_px_full: "pct_to_px 100 side = side"
  by (simp add: pct_to_px_def py_int_of_int)

lemma pct_to_px_zero: "pct_to_px 0 side = 0"
  by (simp add: pct_to_px_def py_int_0)

lemma padding_of_nonneg:
  assumes "0 \<le> side" and "0 \<le> p"
  shows "0 \<le> padding_of side p"
proof -
  have "0 \<le> side * p" using assms by simp
  then have "(0::rat) \<le> of_int (side * p)" by (simp only: of_int_0_le_iff)
  then have "(0::rat) \<le> of_int (side * p) / 100" by simp
  then show ?thesis unfolding padding_of_def by (rule py_int_nonneg)
qed

lemma pad_and_clamp_full:
  assumes "0 \<le> p" and "1 \<le> W" and "1 \<le> H"
  shows "pad_and_clamp \<lparr>rx = 0, ry = 0, rw = W, rh = H\<rparr> p W H = \<lparr>rx = 0, ry = 0, rw = W, rh = H\<rparr>"
proof -
  have "0 \<le> padding_of W p" "0 \<le> padding_of H p"
    using assms by (simp_all add: padding_of_nonneg)
  then show ?thesis
    by (simp add: pad_and_clamp_def apply_padding_def clamp_region_def Let_def)
qed

lemma normalize_defaults:
  assumes "dict_get (JObj entries) ''bbox'' (JObj []) = Inr (JObj kvs)"
    and "map_of kvs ''x'' = None" and "map_of kvs ''y'' = None"
    and "map_of kvs ''width'' = None" and "map_of kvs ''height'' = None"
    and "0 \<le> p" and "1 \<le> W" and "1 \<le> H"
  shows "normalize_figure (JObj entries) p W H = Inr \<lparr>rx = 0, ry = 0, rw = W, rh = H\<rparr>"
proof -
  have "to_pixels 0 0 100 100 W H = \<lparr>rx = 0, ry = 0, rw = W, rh = H\<rparr>"
    by (simp add: to_pixels_def pct_to_px_full pct_to_px_zero)
  then show ?thesis
    using assms pad_and_clamp_full[of p W H]
    by (simp add: normalize_figure_def bbox_field_missing)
qed

lemma bbox_field_append_default:
  assumes "map_of ds k = Some (JNum d)"
  shows "bbox_field (JObj (kvs @ ds)) k d = bbox_field (JObj kvs) k d"
proof (cases "map_of kvs k")
  case None
  then show ?thesis using assms
    by (simp add: bbox_field_def dict_get_def map_add_def py_num_def)
next
  case (Some v)
  then show ?thesis
    by (simp add: bbox_field_def dict_get_def map_add_def)
qed


text \<open>
  Claim C10. A figure without a bbox, or with a bbox that has none of the four fields, is
  not rejected: with a padding that is not negative it is normalized to the whole image,
  and the whole image is cropped and written under the figure's index. A field that is
  missing behaves as if the bbox gave 0 for x and y and 100 for width and height.
\<close>

theorem missing_bbox_gives_whole_image:
  assumes "map_of entries ''bbox'' = None \<or>
           (\<exists>kvs. map_of entries ''bbox'' = Some (JObj kvs) \<and> map_of kvs ''x'' = None \<and>
              map_of kvs ''y'' = None \<and> map_of kvs ''width'' = None \<and> map_of kvs ''height'' = None)"
    and "0 \<le> padding_percent" and "1 \<le> img_width" and "1 \<le> img_height"
  shows "normalize_figure (JObj entries) padding_percent img_width img_height
           = Inr \<lparr>rx = 0, ry = 0, rw = img_width, rh = img_height\<rparr> \<and>
         extract_figures_from_image image_path output_folder padding_percent
             (Inr (JObj [(''figures'', JArr [JObj entries])])) (Some (img_width, img_height))
           = ([MkDirs output_folder,
               WriteFile (figure_path output_folder (base_filename_of image_path) 0)
                 (Crop \<lparr>rx = 0, ry = 0, rw = img_width, rh = img_height\<rparr>)],
              Inr [figure_path output_folder (base_filename_of image_path) 0]) \<and>
         normalize_figure (JObj [(''bbox'', JObj bb)]) padding_percent img_width img_height
           = normalize_figure (JObj [(''bbox'', JObj (bb @ [(''x'', JNum 0), (''y'', JNum 0),
                 (''width'', JNum 100), (''height'', JNum 100)]))])
               padding_percent img_width img_height"
proof -
  from assms(1) obtain kvs where g: "dict_get (JObj entries) ''bbox'' (JObj []) = Inr (JObj kvs)"
    and m: "map_of kvs ''x'' = None" "map_of kvs ''y'' = None"
      "map_of kvs ''width'' = None" "map_of kvs ''height'' = None"
    by (auto simp: dict_get_def)
  have n: "normalize_figure (JObj entries) padding_percent img_width img_height
           = Inr \<lparr>rx = 0, ry = 0, rw = img_width, rh = img_height\<rparr>"
    using normalize_defaults[OF g m assms(2,3,4)] .
  have e: "extract_figures_from_image image_path output_folder padding_percent
             (Inr (JObj [(''figures'', JArr [JObj entries])])) (Some (img_width, img_height))
           = ([MkDirs output_folder,
               WriteFile (figure_path output_folder (base_filename_of image_path) 0)
                 (Crop \<lparr>rx = 0, ry = 0, rw = img_width, rh = img_height\<rparr>)],
              Inr [figure_path output_folder (base_filename_of image_path) 0])"
    using assms(3,4)
    by (simp add: extract_figures_from_image_def dict_get_def truthy_def py_iter_def n
        survives_def Let_def)
  have d: "normalize_figure (JObj [(''bbox'', JObj bb)]) padding_percent img_width img_height
           = normalize_figure (JObj [(''bbox'', JObj (bb @ [(''x'', JNum 0), (''y'', JNum 0),
                 (''width'', JNum 100), (''height'', JNum 100)]))])
               padding_percent img_width img_height"
  proof -
    let ?ds = "[(''x'', JNum 0), (''y'', JNum 0), (''width'', JNum 100), (''height'', JNum 100)]"
    have "bbox_field (JObj (bb @ ?ds)) ''x'' 0 = bbox_field (JObj bb) ''x'' 0"
      "bbox_field (JObj (bb @ ?ds)) ''y'' 0 = bbox_field (JObj bb) ''y'' 0"
      "bbox_field (JObj (bb @ ?ds)) ''width'' 100 = bbox_field (JObj bb) ''width'' 100"
      "bbox_field (JObj (bb @ ?ds)) ''height'' 100 = bbox_field (JObj bb) ''height'' 100"
      by (rule bbox_field_append_default, simp)+
    moreover have "dict_get (JObj [(''bbox'', JObj bb)]) ''bbox'' (JObj []) = Inr (JObj bb)"
      "dict_get (JObj [(''bbox'', JObj (bb @ ?ds))]) ''bbox'' (JObj []) = Inr (JObj (bb @ ?ds))"
      by (simp_all add: dict_get_def)
    ultimately show ?thesis unfolding normalize_figure_def by (simp only: sum.case)
  qed
  from n e d show ?thesis by (simp only: simp_thms)
qed

theorem missing_bbox_gives_whole_image_witness:
  "(map_of ([] :: (string \<times> json) list) ''bbox'' = None) \<and> (0::int) \<le> 8 \<and> (1::int) \<le> 1000 \<and>
   normalize_figure (JObj []) 8 1000 1000 = Inr \<lparr>rx = 0, ry = 0, rw = 1000, rh = 1000\<rparr> \<and>
   extract_figures_from_image ''notes.jpg'' ''out'' 8
       (Inr (JObj [(''figures'', JArr [JObj []])])) (Some (1000, 1000))
     = ([MkDirs ''out'',
         WriteFile (figure_path ''out'' (base_filename_of ''notes.jpg'') 0)
           (Crop \<lparr>rx = 0, ry = 0, rw = 1000, rh = 1000\<rparr>)],
        Inr [figure_path ''out'' (base_filename_of ''notes.jpg'') 0])"
  using missing_bbox_gives_whole_image[where entries = "[]" and padding_percent = 8
      and img_width = 1000 and img_height = 1000 and image_path = "''notes.jpg''"
      and output_folder = "''out''" and bb = "[]"]
  by simp


section \<open>Properties of the response handling\<close>

text \<open>
  Claim C8. A parsed response without the key \<^verbatim>\<open>figures\<close> is read as an empty list; for it
  and for the response with an empty list the pipeline only creates the output folder,
  writes no file, and reports success with a count of zero and exit status 0, whatever
  the image is.
\<close>

theorem empty_figures_reports_success:
  assumes "map_of kvs ''figures'' = None \<or> kvs = [(''figures'', JArr [])]"
  shows "dict_get (JObj kvs) ''figures'' (JArr []) = Inr (JArr []) \<and>
         extract_figures_from_image input_path output_folder padding_percent (Inr (JObj kvs)) img
           = ([MkDirs output_folder], Inr []) \<and>
         written_files (fst (remote_main input_path output_folder padding_percent (Inr (JObj kvs)) img)) = [] \<and>
         snd (remote_main input_path output_folder padding_percent (Inr (JObj kvs)) img) = Success 0 [] \<and>
         exit_status (snd (remote_main input_path output_folder padding_percent (Inr (JObj kvs)) img)) = 0"
proof -
  have g: "dict_get (JObj kvs) ''figures'' (JArr []) = Inr (JArr [])"
    using assms by (auto simp: dict_get_def)
  then have e: "extract_figures_from_image input_path output_folder padding_percent (Inr (JObj kvs)) img
           = ([MkDirs output_folder], Inr [])"
    by (simp add: extract_figures_from_image_def truthy_def)
  then have r: "remote_main input_path output_folder padding_percent (Inr (JObj kvs)) img
           = ([MkDirs output_folder], Success 0 [])"
    by (simp add: remote_main_def report_of_def)
  show ?thesis using g e r by (simp add: exit_status_def)
qed

theorem empty_figures_reports_success_witness:
  "(map_of [(''model'', JStr ''gpt-4o'')] ''figures'' = None \<or>
      [(''model'', JStr ''gpt-4o'')] = [(''figures'', JArr [])]) \<and>
   dict_get (JObj [(''model'', JStr ''gpt-4o'')]) ''figures'' (JArr []) = Inr (JArr []) \<and>
   extract_figures_from_image ''notes.jpg'' ''out'' 8 (Inr (JObj [(''model'', JStr ''gpt-4o'')])) None
     = ([MkDirs ''out''], Inr []) \<and>
   written_files (fst (remote_main ''notes.jpg'' ''out'' 8
       (Inr (JObj [(''model'', JStr ''gpt-4o'')])) None)) = [] \<and>
   snd (remote_main ''notes.jpg'' ''out'' 8 (Inr (JObj [(''model'', JStr ''gpt-4o'')])) None)
     = Success 0 [] \<and>
   exit_status (snd (remote_main ''notes.jpg'' ''out'' 8
       (Inr (JObj [(''model'', JStr ''gpt-4o'')])) None)) = 0"
proof -
  have a: "map_of [(''model'', JStr ''gpt-4o'')] ''figures'' = None \<or>
      [(''model'', JStr ''gpt-4o'')] = [(''figures'', JArr [])]" by simp
  from a empty_figures_reports_success[OF a, of "''notes.jpg''" "''out''" 8 None]
  show ?thesis by blast
qed


subsection \<open>Stripping the code fences\<close>












section \<open>Properties of the contour heuristic\<close>

lemma area_window_height:
  assumes "1 \<le> W" and "1 \<le> H"
    and "min_area W H < of_int (rw r * rh r)"
  shows "rh r \<noteq> 0"
proof
  assume "rh r = 0"
  then have z: "(of_int (rw r * rh r) :: rat) = 0" by simp
  have "0 \<le> W * H" using assms(1,2) by simp
  then have "(0::rat) \<le> of_int (W * H)" by (simp only: of_int_0_le_iff)
  then have "0 \<le> min_area W H" by (simp add: min_area_def)
  moreover have "min_area W H < 0" using assms(3) unfolding z .
  ultimately show False by linarith
qed

lemma contour_accepted_eq:
  assumes "1 \<le> W" and "1 \<le> H"
  shows "contour_accepted W H r =
     Inr (of_int (W * H) * (2 / 100) < (of_int (rw r * rh r) :: rat) \<and>
          (of_int (rw r * rh r) :: rat) < of_int (W * H) * (8 / 10) \<and>
          (3 / 10 :: rat) < of_int (rw r) / of_int (rh r) \<and>
          (of_int (rw r) / of_int (rh r) :: rat) < 3)"
proof (cases "min_area W H < of_int (rw r * rh r) \<and> of_int (rw r * rh r) < max_area W H")
  case True
  then have "rh r \<noteq> 0" using area_window_height[OF assms] by blast
  then show ?thesis using True
    by (simp add: contour_accepted_def Let_def min_area_def max_area_def)
next
  case False
  then show ?thesis
    by (auto simp: contour_accepted_def Let_def min_area_def max_area_def)
qed

lemma frame_area_pos:
  assumes "(1::int) \<le> W" and "1 \<le> H"
  shows "1 \<le> W * H"
proof -
  have "1 * 1 \<le> W * H" using assms by (intro mult_mono) simp_all
  then show ?thesis by simp
qed

lemma tenth_of_frame_accepted:
  assumes "1 \<le> W" and "1 \<le> H"
    and "10 * (rw r * rh r) = W * H" and "2 * rw r = 3 * rh r" and "0 < rh r"
  shows "contour_accepted W H r = Inr True"
proof -
  define ai where "ai = rw r * rh r"
  define Ai where "Ai = W * H"
  have ten: "10 * ai = Ai" using assms(3) by (simp only: ai_def Ai_def)
  have "1 \<le> Ai" unfolding Ai_def using assms(1,2) by (rule frame_area_pos)
  then have "1 \<le> ai" using ten by linarith
  then have pos: "(0::rat) < of_int ai" by simp
  have "(of_int (10 * ai) :: rat) = of_int Ai" by (simp only: ten)
  then have A: "(of_int Ai :: rat) = 10 * of_int ai" by simp
  have lo: "(of_int Ai :: rat) * (2 / 100) < of_int ai" unfolding A using pos by simp
  have hi: "(of_int ai :: rat) < of_int Ai * (8 / 10)" unfolding A using pos by simp
  have h: "(0::rat) < of_int (rh r)" using assms(5) by simp
  have "(of_int (2 * rw r) :: rat) = of_int (3 * rh r)" by (simp only: assms(4))
  then have "(2::rat) * of_int (rw r) = 3 * of_int (rh r)" by simp
  then have "(of_int (rw r) :: rat) = (3 / 2) * of_int (rh r)" by simp
  then have q: "(of_int (rw r) / of_int (rh r) :: rat) = 3 / 2" using h by simp
  have asp: "(3 / 10 :: rat) < of_int (rw r) / of_int (rh r)"
    "(of_int (rw r) / of_int (rh r) :: rat) < 3" unfolding q by simp_all
  show ?thesis
    using contour_accepted_eq[OF assms(1,2), of r, folded ai_def Ai_def] lo hi asp
    by (simp only: simp_thms)
qed

lemma near_whole_frame_rejected:
  assumes "1 \<le> W" and "1 \<le> H" and "100 * (rw r * rh r) = 95 * (W * H)"
  shows "contour_accepted W H r = Inr False"
proof -
  define ai where "ai = rw r * rh r"
  define Ai where "Ai = W * H"
  have eq: "100 * ai = 95 * Ai" using assms(3) by (simp only: ai_def Ai_def)
  have "1 \<le> Ai" unfolding Ai_def using assms(1,2) by (rule frame_area_pos)
  then have pos: "(0::rat) < of_int Ai" by simp
  have "(of_int (100 * ai) :: rat) = of_int (95 * Ai)" by (simp only: eq)
  then have "(100::rat) * of_int ai = 95 * of_int Ai" by simp
  then have "\<not> (of_int ai :: rat) < of_int Ai * (8 / 10)" using pos by simp
  then show ?thesis
    using contour_accepted_eq[OF assms(1,2), of r, folded ai_def Ai_def]
    by (simp only: simp_thms)
qed

lemma sliver_rejected:
  assumes "1 \<le> W" and "1 \<le> H" and "rw r = 1" and "rh r = 50"
  shows "contour_accepted W H r = Inr False"
  using contour_accepted_eq[OF assms(1,2), of r] assms(3,4) by simp


text \<open>
  Claim C5. On an image with positive sides the heuristic never divides by zero and accepts
  a bounding rectangle exactly when its area lies strictly between 2 and 80 percent of
  the image area and its aspect ratio strictly between 0.3 and 3. A rectangle of a tenth
  of the area with aspect ratio 1.5 is accepted; one of 95 percent of the area is
  rejected; a sliver of 1 by 50 is rejected.
\<close>

theorem contour_heuristic_accepts_iff:
  assumes "1 \<le> img_width" and "1 \<le> img_height"
  shows "contour_accepted img_width img_height r =
           Inr (of_int (img_width * img_height) * (2 / 100) < (of_int (rw r * rh r) :: rat) \<and>
                (of_int (rw r * rh r) :: rat) < of_int (img_width * img_height) * (8 / 10) \<and>
                (3 / 10 :: rat) < of_int (rw r) / of_int (rh r) \<and>
                (of_int (rw r) / of_int (rh r) :: rat) < 3) \<and>
         (10 * (rw r * rh r) = img_width * img_height \<and> 2 * rw r = 3 * rh r \<and> 0 < rh r
            \<longrightarrow> contour_accepted img_width img_height r = Inr True) \<and>
         (100 * (rw r * rh r) = 95 * (img_width * img_height)
            \<longrightarrow> contour_accepted img_width img_height r = Inr False) \<and>
         (rw r = 1 \<and> rh r = 50 \<longrightarrow> contour_accepted img_width img_height r = Inr False)"
  using contour_accepted_eq[OF assms, of r] tenth_of_frame_accepted[OF assms, of r]
    near_whole_frame_rejected[OF assms, of r] sliver_rejected[OF assms, of r]
  by blast

theorem contour_heuristic_accepts_iff_witness:
  "(1::int) \<le> 500 \<and> (1::int) \<le> 300 \<and>
   contour_accepted 500 300 \<lparr>rx = 20, ry = 30, rw = 150, rh = 100\<rparr> = Inr True \<and>
   contour_accepted 500 300 \<lparr>rx = 0, ry = 0, rw = 475, rh = 300\<rparr> = Inr False \<and>
   contour_accepted 500 300 \<lparr>rx = 7, ry = 9, rw = 1, rh = 50\<rparr> = Inr False"
  using contour_heuristic_accepts_iff[of 500 300 "\<lparr>rx = 20, ry = 30, rw = 150, rh = 100\<rparr>"]
    contour_heuristic_accepts_iff[of 500 300 "\<lparr>rx = 0, ry = 0, rw = 475, rh = 300\<rparr>"]
    contour_heuristic_accepts_iff[of 500 300 "\<lparr>rx = 7, ry = 9, rw = 1, rh = 50\<rparr>"]
  by simp

section \<open>Properties of the written files\<close>

subsection \<open>Names of the files\<close>

declare str_nat.simps [simp del]

lemma digit_value_digit_char: "d < 10 \<Longrightarrow> digit_value (digit_char d) = d"
  by (simp add: digit_value_def digit_char_def)


lemma nat_of_str_snoc: "nat_of_str (s @ [c]) = 10 * nat_of_str s + digit_value c"
  by (simp add: nat_of_str_def)

lemma nat_of_str_str_nat: "nat_of_str (str_nat n) = n"
proof (induction n rule: str_nat.induct)
  case (1 n)
  show ?case
  proof (cases "n < 10")
    case True
    then show ?thesis
      using nat_of_str_snoc[of "[]" "digit_char n"]
      by (simp add: str_nat.simps[of n] digit_value_digit_char nat_of_str_def)
  next
    case False
    then have ih: "nat_of_str (str_nat (n div 10)) = n div 10" using 1 by simp
    have "n mod 10 < 10" by simp
    then have "digit_value (digit_char (n mod 10)) = n mod 10" by (rule digit_value_digit_char)
    then show ?thesis using False ih
      by (simp add: str_nat.simps[of n] nat_of_str_snoc)
  qed
qed

lemma str_nat_inj: "str_nat i = str_nat j \<Longrightarrow> i = j"
  by (metis nat_of_str_str_nat)



lemma path_join_inj:
  assumes "path_join a (x # xs) = path_join a (x # ys)"
  shows "xs = ys"
  using assms by (simp add: path_join_def split: if_splits)

lemma figure_name_inj:
  assumes "figure_path folder base i = figure_path folder base j"
  shows "i = j"
proof -
  let ?n = "\<lambda>k. base @ ''_figure_'' @ str_nat k @ ''.jpg''"
  obtain x xs where a: "?n i = x # xs" by (cases "?n i") auto
  have hd: "hd (?n j) = x" using a by (cases base) auto
  have "?n j \<noteq> []" by simp
  then obtain ys where b: "?n j = x # ys" using hd by (cases "?n j") auto
  have "path_join folder (x # xs) = path_join folder (x # ys)"
    using assms unfolding figure_path_def a b .
  then have "xs = ys" by (rule path_join_inj)
  then have "?n i = ?n j" using a b by simp
  then have "str_nat i = str_nat j" by simp
  then show ?thesis by (rule str_nat_inj)
qed






subsection \<open>The loops\<close>

lemma figures_loop_length:
  "length (written_files (fst (figures_loop folder base p W H i figs ops paths)))
     \<le> length (written_files ops) + length figs"
proof (induction figs arbitrary: i ops paths)
  case Nil
  then show ?case by simp
next
  case (Cons f figs)
  show ?case
  proof (cases "normalize_figure f p W H")
    case (Inl e)
    then show ?thesis by simp
  next
    case (Inr r)
    show ?thesis
    proof (cases "survives r")
      case True
      from Cons[of "Suc i" "ops @ [WriteFile (figure_path folder base i) (Crop r)]"
          "paths @ [figure_path folder base i]"]
      show ?thesis using Inr True by (simp add: Let_def written_files_append)
    next
      case False
      from Cons[of "Suc i" ops paths] show ?thesis using Inr False by simp
    qed
  qed
qed

lemma figures_loop_paths:
  assumes "snd (figures_loop folder base p W H i figs ops paths) = Inr ps"
    and "written_files ops = paths"
  shows "written_files (fst (figures_loop folder base p W H i figs ops paths)) = ps"
  using assms
proof (induction figs arbitrary: i ops paths)
  case Nil
  then show ?case by simp
next
  case (Cons f figs)
  show ?case
  proof (cases "normalize_figure f p W H")
    case (Inl e)
    then show ?thesis using Cons.prems by simp
  next
    case (Inr r)
    show ?thesis
    proof (cases "survives r")
      case True
      let ?ops = "ops @ [WriteFile (figure_path folder base i) (Crop r)]"
      let ?paths = "paths @ [figure_path folder base i]"
      have a: "snd (figures_loop folder base p W H (Suc i) figs ?ops ?paths) = Inr ps"
        using Cons.prems(1) Inr True by (simp add: Let_def)
      have b: "written_files ?ops = ?paths"
        using Cons.prems(2) by (simp add: written_files_append)
      from Cons.IH[OF a b] show ?thesis using Inr True by (simp add: Let_def)
    next
      case False
      have a: "snd (figures_loop folder base p W H (Suc i) figs ops paths) = Inr ps"
        using Cons.prems(1) Inr False by simp
      from Cons.IH[OF a Cons.prems(2)] show ?thesis using Inr False by simp
    qed
  qed
qed

lemma figures_loop_files:
  assumes "q \<in> set (written_files (fst (figures_loop folder base p W H i figs ops paths)))"
  shows "q \<in> set (written_files ops) \<or>
         (\<exists>k r. k < length figs \<and> q = figure_path folder base (i + k) \<and>
            normalize_figure (figs ! k) p W H = Inr r \<and> survives r)"
  using assms
proof (induction figs arbitrary: i ops paths)
  case Nil
  then show ?case by simp
next
  case (Cons f figs)
  show ?case
  proof (cases "normalize_figure f p W H")
    case (Inl e)
    then show ?thesis using Cons.prems by simp
  next
    case (Inr r)
    show ?thesis
    proof (cases "survives r")
      case True
      let ?ops = "ops @ [WriteFile (figure_path folder base i) (Crop r)]"
      let ?paths = "paths @ [figure_path folder base i]"
      have "q \<in> set (written_files (fst (figures_loop folder base p W H (Suc i) figs ?ops ?paths)))"
        using Cons.prems Inr True by (simp add: Let_def)
      from Cons.IH[OF this] consider
          (old) "q \<in> set (written_files ops)"
        | (new) "q = figure_path folder base i"
        | (later) k r' where "k < length figs" "q = figure_path folder base (Suc i + k)"
            "normalize_figure (figs ! k) p W H = Inr r'" "survives r'"
        by (auto simp: written_files_append)
      then show ?thesis
      proof cases
        case old
        then show ?thesis by blast
      next
        case new
        have "0 < length (f # figs) \<and> q = figure_path folder base (i + 0) \<and>
            normalize_figure ((f # figs) ! 0) p W H = Inr r \<and> survives r"
          using new Inr True by simp
        then show ?thesis by blast
      next
        case later
        have "Suc k < length (f # figs) \<and> q = figure_path folder base (i + Suc k) \<and>
            normalize_figure ((f # figs) ! Suc k) p W H = Inr r' \<and> survives r'"
          using later by simp
        then show ?thesis by blast
      qed
    next
      case False
      have "q \<in> set (written_files (fst (figures_loop folder base p W H (Suc i) figs ops paths)))"
        using Cons.prems Inr False by simp
      from Cons.IH[OF this] consider
          (old) "q \<in> set (written_files ops)"
        | (later) k r' where "k < length figs" "q = figure_path folder base (Suc i + k)"
            "normalize_figure (figs ! k) p W H = Inr r'" "survives r'"
        by auto
      then show ?thesis
      proof cases
        case old
        then show ?thesis by blast
      next
        case later
        have "Suc k < length (f # figs) \<and> q = figure_path folder base (i + Suc k) \<and>
            normalize_figure ((f # figs) ! Suc k) p W H = Inr r' \<and> survives r'"
          using later by simp
        then show ?thesis by blast
      qed
    qed
  qed
qed

lemma contours_loop_length:
  "length (written_files (fst (contours_loop folder base W H n rects ops paths)))
     \<le> length (written_files ops) + length rects"
proof (induction rects arbitrary: n ops paths)
  case Nil
  then show ?case by simp
next
  case (Cons r rects)
  show ?case
  proof (cases "contour_accepted W H r")
    case (Inl e)
    then show ?thesis by simp
  next
    case (Inr accepted)
    show ?thesis
    proof (cases accepted)
      case True
      from Cons[of "Suc n" "ops @ [WriteFile (figure_path folder base n) (Crop r)]"
          "paths @ [figure_path folder base n]"]
      show ?thesis using Inr True by (simp add: Let_def written_files_append)
    next
      case False
      from Cons[of n ops paths] show ?thesis using Inr False by simp
    qed
  qed
qed

lemma contours_loop_paths:
  assumes "snd (contours_loop folder base W H n rects ops paths) = Inr ps"
    and "written_files ops = paths"
  shows "written_files (fst (contours_loop folder base W H n rects ops paths)) = ps"
  using assms
proof (induction rects arbitrary: n ops paths)
  case Nil
  then show ?case by simp
next
  case (Cons r rects)
  show ?case
  proof (cases "contour_accepted W H r")
    case (Inl e)
    then show ?thesis using Cons.prems by simp
  next
    case (Inr accepted)
    show ?thesis
    proof (cases accepted)
      case True
      let ?ops = "ops @ [WriteFile (figure_path folder base n) (Crop r)]"
      let ?paths = "paths @ [figure_path folder base n]"
      have a: "snd (contours_loop folder base W H (Suc n) rects ?ops ?paths) = Inr ps"
        using Cons.prems(1) Inr True by (simp add: Let_def)
      have b: "written_files ?ops = ?paths"
        using Cons.prems(2) by (simp add: written_files_append)
      from Cons.IH[OF a b] show ?thesis using Inr True by (simp add: Let_def)
    next
      case False
      have a: "snd (contours_loop folder base W H n rects ops paths) = Inr ps"
        using Cons.prems(1) Inr False by simp
      from Cons.IH[OF a Cons.prems(2)] show ?thesis using Inr False by simp
    qed
  qed
qed







lemma fallback_count:
  "length (written_files (fst (extract_images_opencv_fallback path folder img rects))) \<le> length rects \<and>
   (\<forall>paths. snd (extract_images_opencv_fallback path folder img rects) = Inr paths
      \<longrightarrow> paths = written_files (fst (extract_images_opencv_fallback path folder img rects)))"
proof (cases img)
  case None
  then show ?thesis by (simp add: extract_images_opencv_fallback_def)
next
  case (Some dims)
  obtain W H where dims: "dims = (W, H)" by (cases dims)
  let ?L = "contours_loop folder (base_filename_of path) W H 0 rects [MkDirs folder] []"
  have e: "extract_images_opencv_fallback path folder img rects = ?L"
    using Some dims by (simp add: extract_images_opencv_fallback_def)
  have a: "length (written_files (fst ?L)) \<le> length rects"
    using contours_loop_length[of folder "base_filename_of path" W H 0 rects "[MkDirs folder]" "[]"]
    by simp
  have b: "\<forall>paths. snd ?L = Inr paths \<longrightarrow> paths = written_files (fst ?L)"
    using contours_loop_paths[of folder "base_filename_of path" W H 0 rects "[MkDirs folder]" "[]"]
    by simp
  show ?thesis unfolding e using a b by blast
qed


lemma flat_normalized:
  "normalize_figure flat_figure 8 1000 1000 = Inr \<lparr>rx = 100, ry = 168, rw = 0, rh = 464\<rparr>"
  by (simp add: flat_figure_def normalize_figure_def dict_get_def bbox_field_def py_num_def
      to_pixels_def pct_to_px_def pad_and_clamp_def apply_padding_def padding_of_def
      clamp_region_def py_int_def)

lemma emitted_figures_list:
  "emitted_figures (Inr (JObj [(''figures'', JArr xs)])) = xs"
  by (simp add: emitted_figures_def dict_get_def py_iter_def)

lemma mixed_extract:
  "extract_figures_from_image ''notes.jpg'' ''out'' 8
     (Inr (JObj [(''figures'', JArr [flat_figure, example_figure])])) (Some (1000, 1000)) =
   ([MkDirs ''out'',
     WriteFile (figure_path ''out'' (base_filename_of ''notes.jpg'') 1)
       (Crop \<lparr>rx = 76, ry = 168, rw = 348, rh = 464\<rparr>)],
    Inr [figure_path ''out'' (base_filename_of ''notes.jpg'') 1])"
  by (simp add: extract_figures_from_image_def dict_get_def truthy_def py_iter_def
      example_normalized_8 flat_normalized survives_def Let_def)


text \<open>
  Claim C3. The remote pipeline never writes more files than the provider emitted figures,
  and the paths it returns are exactly the files it wrote. Every crop it writes has a
  positive width and height, and for a figure whose clamped region has a width or a height
  of zero or less, no file of that figure's index is written or reported. The contour
  fallback never writes or reports more files than there are contours.
\<close>

theorem dropped_regions_not_written:
  assumes "extract_figures_from_image image_path output_folder padding_percent detected img
             = (ops, outcome)"
  shows "length (written_files ops) \<le> length (emitted_figures detected) \<and>
         (\<forall>paths. outcome = Inr paths \<longrightarrow>
            paths = written_files ops \<and> length paths \<le> length (emitted_figures detected)) \<and>
         (\<forall>r \<in> set (written_crops ops). 0 < rw r \<and> 0 < rh r) \<and>
         (\<forall>i W H r. img = Some (W, H) \<and> i < length (emitted_figures detected) \<and>
            normalize_figure (emitted_figures detected ! i) padding_percent W H = Inr r \<and>
            (rw r \<le> 0 \<or> rh r \<le> 0)
            \<longrightarrow> figure_path output_folder (base_filename_of image_path) i
                  \<notin> set (written_files ops)) \<and>
         length (written_files (fst (extract_images_opencv_fallback image_path output_folder img rects)))
           \<le> length rects \<and>
         (\<forall>paths. snd (extract_images_opencv_fallback image_path output_folder img rects) = Inr paths
            \<longrightarrow> length paths \<le> length rects)"
proof -
  let ?figs = "emitted_figures detected"
  let ?base = "base_filename_of image_path"
  have remote: "length (written_files ops) \<le> length ?figs \<and>
         (\<forall>paths. outcome = Inr paths \<longrightarrow> paths = written_files ops) \<and>
         (\<forall>r \<in> set (written_crops ops). 0 < rw r \<and> 0 < rh r) \<and>
         (\<forall>i W H r. img = Some (W, H) \<and> i < length ?figs \<and>
            normalize_figure (?figs ! i) padding_percent W H = Inr r \<and>
            (rw r \<le> 0 \<or> rh r \<le> 0)
            \<longrightarrow> figure_path output_folder ?base i \<notin> set (written_files ops))"
  proof -
    from extract_shape[of image_path output_folder padding_percent detected img]
    consider (trivial) outcome' where
        "extract_figures_from_image image_path output_folder padding_percent detected img
           = ([MkDirs output_folder], outcome')"
        "\<forall>paths. outcome' = Inr paths \<longrightarrow> paths = []"
      | (loop) W H where "img = Some (W, H)"
        "extract_figures_from_image image_path output_folder padding_percent detected img
           = figures_loop output_folder ?base padding_percent W H 0 ?figs [MkDirs output_folder] []"
      by blast
    then show ?thesis
    proof cases
      case trivial
      then have "ops = [MkDirs output_folder]" "outcome = outcome'" using assms by simp_all
      then show ?thesis using trivial(2) by simp
    next
      case loop
      let ?L = "figures_loop output_folder ?base padding_percent W H 0 ?figs [MkDirs output_folder] []"
      have L: "?L = (ops, outcome)" using loop(2) assms by simp
      then have fst: "fst ?L = ops" and snd: "snd ?L = outcome" by simp_all
      have a: "length (written_files ops) \<le> length ?figs"
        using figures_loop_length[of output_folder ?base padding_percent W H 0 ?figs
            "[MkDirs output_folder]" "[]"] unfolding fst by simp
      have b: "\<forall>paths. outcome = Inr paths \<longrightarrow> paths = written_files ops"
        using figures_loop_paths[of output_folder ?base padding_percent W H 0 ?figs
            "[MkDirs output_folder]" "[]"] unfolding fst snd by simp
      have c0: "\<forall>r \<in> set (written_crops [MkDirs output_folder]). survives r" by simp
      have c1: "\<forall>f \<in> set ?figs. \<forall>r. normalize_figure f padding_percent W H = Inr r \<and> survives r
          \<longrightarrow> survives r" by simp
      have c: "\<forall>r \<in> set (written_crops ops). 0 < rw r \<and> 0 < rh r"
        using figures_loop_crops[OF c0 c1, of output_folder ?base 0 "[]"]
        unfolding fst by (simp add: survives_def)
      have d: "figure_path output_folder ?base i \<notin> set (written_files ops)"
        if h: "img = Some (W', H')" "i < length ?figs"
          "normalize_figure (?figs ! i) padding_percent W' H' = Inr r" "rw r \<le> 0 \<or> rh r \<le> 0"
        for i W' H' r
      proof
        assume m: "figure_path output_folder ?base i \<in> set (written_files ops)"
        have WH: "W' = W" "H' = H" using h(1) loop(1) by simp_all
        from m have "figure_path output_folder ?base i \<in> set (written_files (fst ?L))"
          by (simp only: fst)
        from figures_loop_files[OF this] obtain k r' where k: "k < length ?figs"
          "figure_path output_folder ?base i = figure_path output_folder ?base (0 + k)"
          "normalize_figure (?figs ! k) padding_percent W H = Inr r'" "survives r'"
          by auto
        from k(2) have "i = 0 + k" by (rule figure_name_inj)
        then have "r' = r" using k(3) h(3) WH by simp
        then show False using k(4) h(4) by (auto simp: survives_def)
      qed
      show ?thesis using a b c d by blast
    qed
  qed
  have local: "length (written_files (fst (extract_images_opencv_fallback image_path output_folder img rects)))
           \<le> length rects \<and>
         (\<forall>paths. snd (extract_images_opencv_fallback image_path output_folder img rects) = Inr paths
            \<longrightarrow> length paths \<le> length rects)"
    using fallback_count[of image_path output_folder img rects] by auto
  show ?thesis using remote local by (simp only: simp_thms) auto
qed

theorem dropped_regions_not_written_witness:
  "extract_figures_from_image ''notes.jpg'' ''out'' 8
     (Inr (JObj [(''figures'', JArr [flat_figure, example_figure])])) (Some (1000, 1000)) =
   ([MkDirs ''out'',
     WriteFile (figure_path ''out'' (base_filename_of ''notes.jpg'') 1)
       (Crop \<lparr>rx = 76, ry = 168, rw = 348, rh = 464\<rparr>)],
    Inr [figure_path ''out'' (base_filename_of ''notes.jpg'') 1]) \<and>
   normalize_figure flat_figure 8 1000 1000 = Inr \<lparr>rx = 100, ry = 168, rw = 0, rh = 464\<rparr> \<and>
   figure_path ''out'' (base_filename_of ''notes.jpg'') 0
     \<notin> set (written_files [MkDirs ''out'',
         WriteFile (figure_path ''out'' (base_filename_of ''notes.jpg'') 1)
           (Crop \<lparr>rx = 76, ry = 168, rw = 348, rh = 464\<rparr>)]) \<and>
   length (written_files [MkDirs ''out'',
         WriteFile (figure_path ''out'' (base_filename_of ''notes.jpg'') 1)
           (Crop \<lparr>rx = 76, ry = 168, rw = 348, rh = 464\<rparr>)]) \<le> length [flat_figure, example_figure]"
proof -
  note t = dropped_regions_not_written[OF mixed_extract, of "[]"]
  have a: "Some (1000::int, 1000::int) = Some (1000, 1000) \<and>
      (0::nat) < length (emitted_figures (Inr (JObj [(''figures'', JArr [flat_figure, example_figure])]))) \<and>
      normalize_figure (emitted_figures (Inr (JObj [(''figures'', JArr [flat_figure, example_figure])])) ! 0)
        8 1000 1000 = Inr \<lparr>rx = 100, ry = 168, rw = 0, rh = 464\<rparr> \<and>
      (rw \<lparr>rx = 100, ry = 168, rw = 0, rh = 464\<rparr> \<le> 0 \<or> rh \<lparr>rx = 100, ry = 168, rw = 0, rh = 464\<rparr> \<le> 0)"
    by (simp add: emitted_figures_list flat_normalized)
  from t a have "figure_path ''out'' (base_filename_of ''notes.jpg'') 0
     \<notin> set (written_files [MkDirs ''out'',
         WriteFile (figure_path ''out'' (base_filename_of ''notes.jpg'') 1)
           (Crop \<lparr>rx = 76, ry = 168, rw = 348, rh = 464\<rparr>)])" by blast
  moreover from t have "length (written_files [MkDirs ''out'',
         WriteFile (figure_path ''out'' (base_filename_of ''notes.jpg'') 1)
           (Crop \<lparr>rx = 76, ry = 168, rw = 348, rh = 464\<rparr>)]) \<le> length [flat_figure, example_figure]"
    by (simp only: emitted_figures_list)
  ultimately show ?thesis using mixed_extract flat_normalized by (simp only: simp_thms)
qed








end
